theory Spec2Isabelle
  imports Main
begin

section \<open>The Flask callback server of C2-Preliminaries\_Running\_Flask\_WebServer\<close>

text \<open>
  The notebook cell being modelled:
  \<^verbatim>\<open>
  visitor_counter = 0
  webserver = Flask("MyFirstWebServer")

  @webserver.route('/')
  def hello_world():
      # stop_server()
      return 'Hello Panos, it is now ' + str(datetime.date.today())

  @webserver.route('/testNYU')
  def hello_nyu():
      # stop_server()
      global visitor_counter
      visitor_counter += 1
      return 'Hello! You are visitor #{i}'.format(i=visitor_counter)

  def start_server():
      global visitor_counter
      visitor_counter = 0
      webserver.run(host='0.0.0.0', port=5000)
      return

  def stop_server():
      shutdown_after_request = request.environ.get('werkzeug.server.shutdown')
      shutdown_after_request()
      return

  start_server()
  \<close>
  The global \<open>visitor_counter\<close> and the state of the \<open>webserver\<close> object are threaded
  explicitly; exceptions are values; the clock, the request environment and the outcome
  of binding the port are inputs.
\<close>

subsection \<open>Python's text of numbers and dates\<close>

definition digit_char :: "nat \<Rightarrow> char" where
  "digit_char d = ''0123456789'' ! d"

text \<open>\<open>str\<close> of a non-negative integer: its decimal digits, most significant first.\<close>

function str_nat :: "nat \<Rightarrow> string" where
  "str_nat n = (if n < 10 then [digit_char n] else str_nat (n div 10) @ [digit_char (n mod 10)])"
  by pat_completeness auto
termination
  by (relation "measure id") auto

declare str_nat.simps [simp del]

text \<open>\<open>'{i}'.format(i=n)\<close> for a Python \<open>int\<close> (unbounded): a minus sign for a negative
  number, then the digits of its absolute value.\<close>

definition str_int :: "int \<Rightarrow> string" where
  "str_int i = (if i < 0 then CHR ''-'' # str_nat (nat (- i)) else str_nat (nat i))"

text \<open>A \<open>datetime.date\<close>.\<close>

record date =
  year :: nat
  month :: nat
  day :: nat

text \<open>Left-padding with zeros to a width, as the format \<open>%0wd\<close> does.\<close>

definition zfill :: "nat \<Rightarrow> string \<Rightarrow> string" where
  "zfill w str = replicate (w - length str) CHR ''0'' @ str"

text \<open>\<open>str\<close> of a \<open>datetime.date\<close> is its \<open>isoformat()\<close>: \<open>"%04d-%02d-%02d"\<close>
  of year, month and day.\<close>

definition str_date :: "date \<Rightarrow> string" where
  "str_date d =
     zfill 4 (str_nat (year d)) @ ''-'' @ zfill 2 (str_nat (month d)) @ ''-'' @ zfill 2 (str_nat (day d))"

text \<open>The dates a \<open>datetime.date\<close> can hold (the day's bound by month is not needed here).\<close>

definition valid_date :: "date \<Rightarrow> bool" where
  "valid_date d = (1 \<le> year d \<and> year d \<le> 9999 \<and> 1 \<le> month d \<and> month d \<le> 12 \<and> 1 \<le> day d \<and> day d \<le> 31)"

text \<open>Reading decimal text back, to say which number a text shows.\<close>

definition digit_val :: "char \<Rightarrow> nat" where
  "digit_val c = of_char c - 48"

definition nat_of_str :: "string \<Rightarrow> nat" where
  "nat_of_str cs = foldl (\<lambda>acc c. 10 * acc + digit_val c) 0 cs"

definition int_of_str :: "string \<Rightarrow> int" where
  "int_of_str cs = (case cs of [] \<Rightarrow> 0
     | c # rest \<Rightarrow> if c = CHR ''-'' then - int (nat_of_str rest) else int (nat_of_str cs))"

subsection \<open>State, requests and errors\<close>

datatype py_error = TypeError | OSError

text \<open>
  What the handlers' code can change: \<open>visitor_counter\<close>, the notebook's global, and
  \<open>shutdown_signal\<close>, the flag of the serving loop that the callable stored under
  \<open>'werkzeug.server.shutdown'\<close> raises.
\<close>

record server =
  visitor_counter :: int
  shutdown_signal :: bool

text \<open>What a WSGI environment holds under a key: some text, or the shutdown callable.\<close>

datatype environ_value = EnvStr string | ShutdownCallable

text \<open>
  What a handler can see while it serves a request: the path asked for, Flask's
  \<open>request.environ\<close> (a dict), and the date \<open>datetime.date.today()\<close> returns meanwhile.
\<close>

record request =
  path :: string
  environ :: "string \<rightharpoonup> environ_value"
  today :: date

text \<open>A view function: it returns a body or raises, and may change the state either way.\<close>

type_synonym view = "request \<Rightarrow> server \<Rightarrow> (py_error + string) \<times> server"

subsection \<open>The functions of the notebook\<close>

text \<open>The module-level assignment: the counter at 0 (and no shutdown asked for).\<close>

definition initial_server :: server where
  "initial_server = \<lparr>visitor_counter = 0, shutdown_signal = False\<rparr>"

definition hello_world :: view where
  "hello_world req s = (Inr (''Hello Panos, it is now '' @ str_date (today req)), s)"

definition hello_nyu :: view where
  "hello_nyu req s =
     (let s' = s\<lparr>visitor_counter := visitor_counter s + 1\<rparr>
      in (Inr (''Hello! You are visitor #'' @ str_int (visitor_counter s')), s'))"

text \<open>Calling what \<open>environ.get\<close> returned: only the shutdown callable can be called; it
  raises the flag. Calling \<open>None\<close> (no such key) or a string raises \<open>TypeError\<close>.\<close>

fun call_value :: "environ_value option \<Rightarrow> server \<Rightarrow> (py_error + unit) \<times> server" where
  "call_value None s = (Inl TypeError, s)"
| "call_value (Some (EnvStr v)) s = (Inl TypeError, s)"
| "call_value (Some ShutdownCallable) s = (Inr (), s\<lparr>shutdown_signal := True\<rparr>)"

definition stop_server :: "request \<Rightarrow> server \<Rightarrow> (py_error + unit) \<times> server" where
  "stop_server req s =
     (let shutdown_after_request = environ req ''werkzeug.server.shutdown''
      in call_value shutdown_after_request s)"

text \<open>The route table the two decorators build.\<close>

definition webserver :: "string \<rightharpoonup> view" where
  "webserver = [''/'' \<mapsto> hello_world, ''/testNYU'' \<mapsto> hello_nyu]"

text \<open>The handler of \<open>/testNYU\<close> with its first statement, the commented-out call of
  \<open>stop_server()\<close>, enabled; and the route table with it. The notebook does not run
  these; they show the serving loop returning.\<close>

definition hello_nyu_stopping :: view where
  "hello_nyu_stopping req s =
     (case stop_server req s of
        (Inl e, s') \<Rightarrow> (Inl e, s')
      | (Inr u, s') \<Rightarrow> hello_nyu req s')"

definition webserver_stopping :: "string \<rightharpoonup> view" where
  "webserver_stopping = [''/'' \<mapsto> hello_world, ''/testNYU'' \<mapsto> hello_nyu_stopping]"

subsection \<open>The serving loop\<close>

datatype response = Response nat string

text \<open>What a client's attempt meets: a response, or no listener.\<close>

datatype reply = Served response | Refused

text \<open>What the loop sees at each poll: nothing, or a request.\<close>

datatype event = Idle | Incoming request

text \<open>How a call ends: it raises, it returns, or it is still blocked when the events
  given are used up.\<close>

datatype completion = Raises py_error | Returns | Blocks

text \<open>Modelled from the spec: Flask's dispatch of one request, which is not in the
  repository. A route is a mapping from a URL path to a handler (\<section>3); a handler's
  return value is the body of a 200 response (\<section>6). A path with no route gets 404 and
  an exception in a handler gets 500; neither is in the spec, and no claim rests on them.
\<close>

definition handle_request :: "(string \<rightharpoonup> view) \<Rightarrow> request \<Rightarrow> server \<Rightarrow> response \<times> server" where
  "handle_request routes req s =
     (case routes (path req) of
        None \<Rightarrow> (Response 404 ''Not Found'', s)
      | Some v \<Rightarrow>
          (case v req s of
             (Inr body, s') \<Rightarrow> (Response 200 body, s')
           | (Inl e, s') \<Rightarrow> (Response 500 ''Internal Server Error'', s')))"

text \<open>Modelled from the spec: the listen call of \<open>webserver.run\<close>, which is not in the
  repository. It binds the port; if the port is in use, startup fails (\<section>4.1, \<section>7).
  \<open>bind_ok k\<close> is what the \<open>k\<close>-th attempt to bind port 5000 would meet; one call makes
  attempt 0 only. A server that starts listening has no shutdown pending.
\<close>

definition listen :: "(nat \<Rightarrow> bool) \<Rightarrow> server \<Rightarrow> py_error + server" where
  "listen bind_ok s = (if bind_ok 0 then Inr (s\<lparr>shutdown_signal := False\<rparr>) else Inl OSError)"

text \<open>The requests among some events, all refused: nobody listens.\<close>

fun refused :: "event list \<Rightarrow> reply list" where
  "refused [] = []"
| "refused (Idle # es) = refused es"
| "refused (Incoming req # es) = Refused # refused es"

text \<open>Modelled from the spec: the serving loop of \<open>webserver.run\<close>, which is not in the
  repository. It blocks until shutdown is triggered from a handler and has no other way
  out (\<section>5); the response in flight is completed first, then no connection is
  accepted (\<section>4.1). The events are what arrives, poll by poll; when they are used up
  and no handler has triggered shutdown, the loop is still blocked.
\<close>

fun serve_forever :: "(string \<rightharpoonup> view) \<Rightarrow> event list \<Rightarrow> server \<Rightarrow> reply list \<times> completion \<times> server" where
  "serve_forever routes [] s = ([], Blocks, s)"
| "serve_forever routes (Idle # es) s = serve_forever routes es s"
| "serve_forever routes (Incoming req # es) s =
     (case handle_request routes req s of
        (resp, s') \<Rightarrow>
          if shutdown_signal s' then (Served resp # refused es, Returns, s')
          else (case serve_forever routes es s' of
                  (replies, c, s'') \<Rightarrow> (Served resp # replies, c, s'')))"

definition webserver_run :: "(string \<rightharpoonup> view) \<Rightarrow> (nat \<Rightarrow> bool) \<Rightarrow> event list \<Rightarrow> server
    \<Rightarrow> reply list \<times> completion \<times> server" where
  "webserver_run routes bind_ok events s =
     (case listen bind_ok s of
        Inl e \<Rightarrow> ([], Raises e, s)
      | Inr s' \<Rightarrow> serve_forever routes events s')"

text \<open>\<open>start_server\<close>: the counter is reset, then the blocking call; there is no handler
  around it and no loop, so what \<open>run\<close> raises leaves \<open>start_server\<close> too.\<close>

definition start_server :: "(string \<rightharpoonup> view) \<Rightarrow> (nat \<Rightarrow> bool) \<Rightarrow> event list \<Rightarrow> server
    \<Rightarrow> reply list \<times> completion \<times> server" where
  "start_server routes bind_ok events s =
     (let s0 = s\<lparr>visitor_counter := 0\<rparr>
      in webserver_run routes bind_ok events s0)"

subsection \<open>The life cycle\<close>

datatype ServerState = Stopped | Running

text \<open>Modelled from the spec: the state machine of \<section>3 and \<section>4.1 over the operations
  above. A stopped server can be started: \<open>start_server\<close> resets the counter and
  listens, which succeeds or fails. A running server polls: nothing arrives, or a request
  is served, after which the server stops if the handler triggered shutdown.
\<close>

inductive step :: "(string \<rightharpoonup> view) \<Rightarrow> ServerState \<times> server \<Rightarrow> ServerState \<times> server \<Rightarrow> bool"
  for routes :: "string \<rightharpoonup> view" where
  start_ok: "listen bind_ok (s\<lparr>visitor_counter := 0\<rparr>) = Inr s' \<Longrightarrow> step routes (Stopped, s) (Running, s')"
| start_fails: "listen bind_ok (s\<lparr>visitor_counter := 0\<rparr>) = Inl e \<Longrightarrow>
     step routes (Stopped, s) (Stopped, s\<lparr>visitor_counter := 0\<rparr>)"
| idle: "step routes (Running, s) (Running, s)"
| served: "handle_request routes req s = (resp, s') \<Longrightarrow> \<not> shutdown_signal s' \<Longrightarrow>
     step routes (Running, s) (Running, s')"
| shutdown: "handle_request routes req s = (resp, s') \<Longrightarrow> shutdown_signal s' \<Longrightarrow>
     step routes (Running, s) (Stopped, s')"

text \<open>The state a call of \<open>start_server\<close> leaves the server in.\<close>

fun state_after :: "completion \<Rightarrow> ServerState" where
  "state_after (Raises e) = Stopped"
| "state_after Returns = Stopped"
| "state_after Blocks = Running"

subsection \<open>Example requests\<close>

text \<open>A GET request as werkzeug's development server presents it: its environment holds
  the shutdown callable.\<close>

definition werkzeug_request :: "string \<Rightarrow> date \<Rightarrow> request" where
  "werkzeug_request p d =
     \<lparr>path = p,
      environ = [''REQUEST_METHOD'' \<mapsto> EnvStr ''GET'', ''werkzeug.server.shutdown'' \<mapsto> ShutdownCallable],
      today = d\<rparr>"

text \<open>The same request under a server whose environment has no such key.\<close>

definition bare_request :: "string \<Rightarrow> date \<Rightarrow> request" where
  "bare_request p d = \<lparr>path = p, environ = [''REQUEST_METHOD'' \<mapsto> EnvStr ''GET''], today = d\<rparr>"

subsection \<open>Reading a run\<close>

text \<open>The requests among some events, in order of arrival.\<close>

fun requests_of :: "event list \<Rightarrow> request list" where
  "requests_of [] = []"
| "requests_of (Idle # es) = requests_of es"
| "requests_of (Incoming req # es) = req # requests_of es"

definition to_testNYU :: "request \<Rightarrow> bool" where
  "to_testNYU req = (path req = ''/testNYU'')"

text \<open>The replies that answer the requests for \<open>/testNYU\<close>, the \<open>i\<close>-th reply being the
  answer to the \<open>i\<close>-th request.\<close>

definition testNYU_replies :: "event list \<Rightarrow> reply list \<Rightarrow> reply list" where
  "testNYU_replies es replies =
     map snd (filter (\<lambda>(req, r). to_testNYU req) (zip (requests_of es) replies))"

section \<open>Properties\<close>

subsection \<open>Decimal text reads back as the number\<close>

lemma digit_val_digit_char: "d < 10 \<Longrightarrow> digit_val (digit_char d) = d"
proof -
  assume "d < 10"
  then have "d \<in> {0,1,2,3,4,5,6,7,8,9}" by auto
  then show ?thesis by (auto simp: digit_val_def digit_char_def)
qed

lemma digit_char_not_minus: "d < 10 \<Longrightarrow> digit_char d \<noteq> CHR ''-''"
proof -
  assume "d < 10"
  then have "d \<in> {0,1,2,3,4,5,6,7,8,9}" by auto
  then show ?thesis by (auto simp: digit_char_def)
qed

lemma nat_of_str_snoc: "nat_of_str (cs @ [c]) = 10 * nat_of_str cs + digit_val c"
  by (simp add: nat_of_str_def)

lemma nat_of_str_str_nat: "nat_of_str (str_nat n) = n"
proof (induction n rule: str_nat.induct)
  case (1 n)
  show ?case
  proof (cases "n < 10")
    case True
    then show ?thesis by (simp add: str_nat.simps [of n] nat_of_str_def digit_val_digit_char)
  next
    case False
    with 1 have "nat_of_str (str_nat (n div 10)) = n div 10" by simp
    with False show ?thesis
      by (simp add: str_nat.simps [of n] nat_of_str_snoc digit_val_digit_char)
  qed
qed

lemma str_nat_starts_with_digit: "\<exists>d rest. d < 10 \<and> str_nat n = digit_char d # rest"
proof (induction n rule: str_nat.induct)
  case (1 n)
  show ?case
  proof (cases "n < 10")
    case True
    then show ?thesis by (auto simp: str_nat.simps [of n])
  next
    case False
    with 1 obtain d rest where "d < 10" "str_nat (n div 10) = digit_char d # rest" by blast
    with False show ?thesis by (auto simp: str_nat.simps [of n])
  qed
qed

lemma int_of_str_str_int: "int_of_str (str_int i) = i"
proof (cases "i < 0")
  case True
  then show ?thesis by (simp add: int_of_str_def str_int_def nat_of_str_str_nat)
next
  case False
  obtain d rest where d: "d < 10" "str_nat (nat i) = digit_char d # rest"
    using str_nat_starts_with_digit by blast
  have "nat_of_str (digit_char d # rest) = nat i"
    using nat_of_str_str_nat [of "nat i"] d by simp
  with False d show ?thesis
    by (simp add: int_of_str_def str_int_def digit_char_not_minus)
qed

lemma str_nat_length: "0 < k \<Longrightarrow> n < 10 ^ k \<Longrightarrow> length (str_nat n) \<le> k"
proof (induction n arbitrary: k rule: str_nat.induct)
  case (1 n)
  show ?case
  proof (cases "n < 10")
    case True
    with 1(2) show ?thesis by (simp add: str_nat.simps [of n])
  next
    case False
    with 1(3) have k: "1 < k" by (cases "k = 1") (use 1(2) in auto)
    then obtain j where j: "k = Suc j" "0 < j" by (cases k) auto
    from 1(3) j have "n div 10 < 10 ^ j" by (simp add: less_mult_imp_div_less mult.commute)
    with 1(1) [OF False j(2)] have "length (str_nat (n div 10)) \<le> j" by simp
    with False j show ?thesis by (simp add: str_nat.simps [of n])
  qed
qed

lemma length_zfill: "length str \<le> w \<Longrightarrow> length (zfill w str) = w"
  by (simp add: zfill_def)

lemma nat_of_str_zeros: "foldl (\<lambda>acc c. 10 * acc + digit_val c) 0 (replicate k CHR ''0'') = 0"
  by (induction k) (simp_all add: digit_val_def)

lemma nat_of_str_zfill: "nat_of_str (zfill w str) = nat_of_str str"
  by (simp add: zfill_def nat_of_str_def nat_of_str_zeros)

text \<open>The definitions a concrete run unfolds.\<close>

lemmas run_defs = start_server_def webserver_run_def listen_def handle_request_def webserver_def
  webserver_stopping_def hello_world_def hello_nyu_def hello_nyu_stopping_def stop_server_def
  werkzeug_request_def bare_request_def initial_server_def str_int_def str_date_def zfill_def
  str_nat.simps digit_char_def Let_def

subsection \<open>The handler of /testNYU\<close>

text \<open>
  C2. Every call of the \<open>/testNYU\<close> handler adds exactly one to the visitor counter and
  returns the body \<open>Hello! You are visitor #\<close> followed by the decimal text of the
  counter's new value: text that reads back as that value.
\<close>

theorem hello_nyu_counts_and_reports:
  "visitor_counter (snd (hello_nyu req s)) = visitor_counter s + 1 \<and>
   fst (hello_nyu req s) =
     Inr (''Hello! You are visitor #'' @ str_int (visitor_counter (snd (hello_nyu req s)))) \<and>
   int_of_str (str_int (visitor_counter (snd (hello_nyu req s)))) = visitor_counter (snd (hello_nyu req s))"
  by (simp add: hello_nyu_def Let_def int_of_str_str_int)

lemma hello_nyu_example:
  "hello_nyu (werkzeug_request ''/testNYU'' d) \<lparr>visitor_counter = 41, shutdown_signal = False\<rparr> =
     (Inr ''Hello! You are visitor #42'', \<lparr>visitor_counter = 42, shutdown_signal = False\<rparr>)"
  by (simp add: run_defs)

text \<open>
  C10. The handler of \<open>/\<close> leaves the visitor counter as it found it, and so does
  \<open>stop_server\<close>; a request for any path but \<open>/testNYU\<close> is served without a change of
  the counter. What is left to modify it is \<open>hello_nyu\<close> and \<open>start_server\<close>.
\<close>

theorem hello_world_keeps_counter:
  "visitor_counter (snd (hello_world req s)) = visitor_counter s \<and>
   visitor_counter (snd (stop_server req s)) = visitor_counter s \<and>
   (path req \<noteq> ''/testNYU'' \<longrightarrow>
      visitor_counter (snd (handle_request webserver req s)) = visitor_counter s)"
proof -
  have "visitor_counter (snd (call_value v s)) = visitor_counter s" for v
    by (cases "(v, s)" rule: call_value.cases) simp_all
  then show ?thesis
    by (simp add: hello_world_def stop_server_def handle_request_def webserver_def Let_def)
qed

theorem hello_world_keeps_counter_witness:
  "path (werkzeug_request ''/'' \<lparr>year = 2017, month = 3, day = 9\<rparr>) \<noteq> ''/testNYU'' \<and>
   visitor_counter (snd (hello_world (werkzeug_request ''/'' \<lparr>year = 2017, month = 3, day = 9\<rparr>)
      \<lparr>visitor_counter = 7, shutdown_signal = False\<rparr>)) = 7 \<and>
   visitor_counter (snd (stop_server (werkzeug_request ''/'' \<lparr>year = 2017, month = 3, day = 9\<rparr>)
      \<lparr>visitor_counter = 7, shutdown_signal = False\<rparr>)) = 7 \<and>
   visitor_counter (snd (handle_request webserver (werkzeug_request ''/'' \<lparr>year = 2017, month = 3, day = 9\<rparr>)
      \<lparr>visitor_counter = 7, shutdown_signal = False\<rparr>)) = 7"
  using hello_world_keeps_counter [of "werkzeug_request ''/'' \<lparr>year = 2017, month = 3, day = 9\<rparr>"
      "\<lparr>visitor_counter = 7, shutdown_signal = False\<rparr>"]
  by (simp add: werkzeug_request_def)

subsection \<open>Stopping\<close>

text \<open>
  C9. When the request environment has no entry \<open>'werkzeug.server.shutdown'\<close>, the lookup
  in \<open>stop_server\<close> gives \<open>None\<close> and calling it raises (\<open>TypeError\<close>); the state is
  untouched, so no shutdown is asked for.
\<close>

theorem stop_server_without_callable:
  "environ req ''werkzeug.server.shutdown'' = None \<Longrightarrow> stop_server req s = (Inl TypeError, s)"
  by (simp add: stop_server_def)

theorem stop_server_without_callable_witness:
  "environ (bare_request ''/testNYU'' \<lparr>year = 2017, month = 3, day = 9\<rparr>) ''werkzeug.server.shutdown'' = None \<and>
   stop_server (bare_request ''/testNYU'' \<lparr>year = 2017, month = 3, day = 9\<rparr>) initial_server
     = (Inl TypeError, \<lparr>visitor_counter = 0, shutdown_signal = False\<rparr>)"
proof -
  have h: "environ (bare_request ''/testNYU'' \<lparr>year = 2017, month = 3, day = 9\<rparr>) ''werkzeug.server.shutdown'' = None"
    by (simp add: bare_request_def)
  from stop_server_without_callable [OF h, of initial_server] h show ?thesis
    by (simp add: initial_server_def)
qed

lemma stop_server_with_callable:
  "stop_server (werkzeug_request p d) s = (Inr (), s\<lparr>shutdown_signal := True\<rparr>)"
  by (simp add: stop_server_def werkzeug_request_def)

subsection \<open>Starting\<close>

text \<open>
  C8. If binding the port fails when \<open>start_server\<close> is called, the call raises that
  error to its caller: nothing is served, and what a second attempt to bind would meet
  does not matter, since none is made.
\<close>

theorem start_server_bind_failure:
  "\<not> bind_ok 0 \<Longrightarrow>
   start_server routes bind_ok events s = ([], Raises OSError, s\<lparr>visitor_counter := 0\<rparr>)"
  by (simp add: start_server_def webserver_run_def listen_def Let_def)

theorem start_server_bind_failure_witness:
  "\<not> (\<lambda>k::nat. 0 < k) 0 \<and>
   start_server webserver (\<lambda>k. 0 < k)
     [Incoming (werkzeug_request ''/testNYU'' \<lparr>year = 2017, month = 3, day = 9\<rparr>)]
     \<lparr>visitor_counter = 5, shutdown_signal = False\<rparr>
   = ([], Raises OSError, \<lparr>visitor_counter = 0, shutdown_signal = False\<rparr>)"
  using start_server_bind_failure [of "\<lambda>k. 0 < k" webserver
     "[Incoming (werkzeug_request ''/testNYU'' \<lparr>year = 2017, month = 3, day = 9\<rparr>)]"
     "\<lparr>visitor_counter = 5, shutdown_signal = False\<rparr>"]
  by simp

subsection \<open>A run of the server\<close>

lemma handle_request_nyu:
  "path req = ''/testNYU'' \<Longrightarrow>
   handle_request webserver req s =
     (Response 200 (''Hello! You are visitor #'' @ str_int (visitor_counter s + 1)),
      s\<lparr>visitor_counter := visitor_counter s + 1\<rparr>)"
  by (simp add: handle_request_def webserver_def hello_nyu_def Let_def)

lemma handle_request_root:
  "path req = ''/'' \<Longrightarrow>
   handle_request webserver req s =
     (Response 200 (''Hello Panos, it is now '' @ str_date (today req)), s)"
  by (simp add: handle_request_def webserver_def hello_world_def)

lemma visitor_numbers: "map (\<lambda>k. f (1 + int k)) [0..<n] = map f [1..int n]"
proof (induction n)
  case 0
  then show ?case by simp
next
  case (Suc n)
  have "[1..int (Suc n)] = [1..int n] @ [int n + 1]"
    using upto_rec2 [of 1 "int n + 1"] by (simp add: add.commute)
  with Suc show ?case by (simp add: add.commute)
qed

lemma handle_request_other:
  "path req \<noteq> ''/testNYU'' \<Longrightarrow> snd (handle_request webserver req s) = s"
  by (simp add: handle_request_def webserver_def hello_world_def)

lemma serve_forever_webserver:
  "\<not> shutdown_signal s \<Longrightarrow>
   \<exists>replies.
     serve_forever webserver es s =
       (replies, Blocks, s\<lparr>visitor_counter := visitor_counter s + int (length (filter to_testNYU (requests_of es)))\<rparr>) \<and>
     length replies = length (requests_of es) \<and>
     testNYU_replies es replies =
       map (\<lambda>k. Served (Response 200 (''Hello! You are visitor #'' @ str_int (visitor_counter s + (1 + int k)))))
         [0..<length (filter to_testNYU (requests_of es))]"
proof (induction es arbitrary: s)
  case Nil
  then show ?case by (simp add: testNYU_replies_def)
next
  case (Cons e es)
  show ?case
  proof (cases e)
    case Idle
    with Cons.IH [OF Cons.prems] show ?thesis by (simp add: testNYU_replies_def)
  next
    case (Incoming req)
    show ?thesis
    proof (cases "path req = ''/testNYU''")
      case True
      let ?s1 = "s\<lparr>visitor_counter := visitor_counter s + 1\<rparr>"
      from Cons.prems have n1: "\<not> shutdown_signal ?s1" by simp
      from Cons.IH [OF n1] obtain replies where
        r: "serve_forever webserver es ?s1 =
             (replies, Blocks, ?s1\<lparr>visitor_counter := visitor_counter ?s1 + int (length (filter to_testNYU (requests_of es)))\<rparr>)"
           "length replies = length (requests_of es)"
           "testNYU_replies es replies =
             map (\<lambda>k. Served (Response 200 (''Hello! You are visitor #'' @ str_int (visitor_counter ?s1 + (1 + int k)))))
               [0..<length (filter to_testNYU (requests_of es))]"
        by blast
      let ?resp = "Response 200 (''Hello! You are visitor #'' @ str_int (visitor_counter s + 1))"
      from True have h: "handle_request webserver req s = (?resp, ?s1)" by (rule handle_request_nyu)
      from h r Incoming True Cons.prems
      have "serve_forever webserver (e # es) s =
         (Served ?resp # replies, Blocks,
          s\<lparr>visitor_counter := visitor_counter s + int (length (filter to_testNYU (requests_of (e # es))))\<rparr>) \<and>
        length (Served ?resp # replies) = length (requests_of (e # es)) \<and>
        testNYU_replies (e # es) (Served ?resp # replies) =
          map (\<lambda>k. Served (Response 200 (''Hello! You are visitor #'' @ str_int (visitor_counter s + (1 + int k)))))
            [0..<length (filter to_testNYU (requests_of (e # es)))]"
        by (simp add: testNYU_replies_def to_testNYU_def map_upt_Suc add.assoc del: upt_Suc)
      then show ?thesis by blast
    next
      case False
      obtain resp where h: "handle_request webserver req s = (resp, s)"
        using handle_request_other [OF False, of s] by (cases "handle_request webserver req s") simp
      from Cons.IH [OF Cons.prems] obtain replies where
        r: "serve_forever webserver es s =
             (replies, Blocks, s\<lparr>visitor_counter := visitor_counter s + int (length (filter to_testNYU (requests_of es)))\<rparr>)"
           "length replies = length (requests_of es)"
           "testNYU_replies es replies =
             map (\<lambda>k. Served (Response 200 (''Hello! You are visitor #'' @ str_int (visitor_counter s + (1 + int k)))))
               [0..<length (filter to_testNYU (requests_of es))]"
        by blast
      from h r Incoming False Cons.prems
      have "serve_forever webserver (e # es) s =
         (Served resp # replies, Blocks,
          s\<lparr>visitor_counter := visitor_counter s + int (length (filter to_testNYU (requests_of (e # es))))\<rparr>) \<and>
        length (Served resp # replies) = length (requests_of (e # es)) \<and>
        testNYU_replies (e # es) (Served resp # replies) =
          map (\<lambda>k. Served (Response 200 (''Hello! You are visitor #'' @ str_int (visitor_counter s + (1 + int k)))))
            [0..<length (filter to_testNYU (requests_of (e # es)))]"
        by (simp add: testNYU_replies_def to_testNYU_def)
      then show ?thesis by blast
    qed
  qed
qed

text \<open>
  C3. In one run of the server (a call of \<open>start_server\<close> that could bind the port),
  whatever arrives and whatever the counter was before: the call stays blocked, every
  request is answered, and the answers to the requests for \<open>/testNYU\<close> are, in order,
  the bodies with the visitor numbers 1, 2, 3, ... up to the number of such requests.
\<close>

theorem visitor_numbers_in_a_run:
  "bind_ok 0 \<Longrightarrow>
   fst (snd (start_server webserver bind_ok es s)) = Blocks \<and>
   length (fst (start_server webserver bind_ok es s)) = length (requests_of es) \<and>
   testNYU_replies es (fst (start_server webserver bind_ok es s)) =
     map (\<lambda>n. Served (Response 200 (''Hello! You are visitor #'' @ str_int n)))
       [1..int (length (filter to_testNYU (requests_of es)))]"
proof -
  assume b: "bind_ok 0"
  define f where "f = (\<lambda>n. Served (Response 200 (''Hello! You are visitor #'' @ str_int n)))"
  let ?s0 = "s\<lparr>visitor_counter := 0, shutdown_signal := False\<rparr>"
  let ?n = "length (filter to_testNYU (requests_of es))"
  have "\<not> shutdown_signal ?s0" by simp
  from serve_forever_webserver [OF this, of es] obtain replies where
    r: "serve_forever webserver es ?s0 = (replies, Blocks, ?s0\<lparr>visitor_counter := visitor_counter ?s0 + int ?n\<rparr>)"
       "length replies = length (requests_of es)"
       "testNYU_replies es replies =
          map (\<lambda>k. Served (Response 200 (''Hello! You are visitor #'' @ str_int (visitor_counter ?s0 + (1 + int k))))) [0..<?n]"
    by blast
  from r(3) have "testNYU_replies es replies = map (\<lambda>k. f (1 + int k)) [0..<?n]"
    by (simp add: f_def)
  then have t: "testNYU_replies es replies = map f [1..int ?n]"
    by (simp only: visitor_numbers)
  from b have "start_server webserver bind_ok es s = serve_forever webserver es ?s0"
    by (simp add: start_server_def webserver_run_def listen_def Let_def)
  with r(1,2) t show ?thesis by (simp add: f_def)
qed

theorem visitor_numbers_in_a_run_witness:
  "start_server webserver (\<lambda>k. True)
     [Incoming (werkzeug_request ''/testNYU'' \<lparr>year = 2017, month = 3, day = 9\<rparr>),
      Idle,
      Incoming (werkzeug_request ''/'' \<lparr>year = 2017, month = 3, day = 9\<rparr>),
      Incoming (bare_request ''/testNYU'' \<lparr>year = 2017, month = 3, day = 10\<rparr>),
      Incoming (werkzeug_request ''/favicon.ico'' \<lparr>year = 2017, month = 3, day = 10\<rparr>),
      Incoming (werkzeug_request ''/testNYU'' \<lparr>year = 2017, month = 3, day = 10\<rparr>)]
     \<lparr>visitor_counter = 12, shutdown_signal = False\<rparr> =
     ([Served (Response 200 ''Hello! You are visitor #1''),
       Served (Response 200 ''Hello Panos, it is now 2017-03-09''),
       Served (Response 200 ''Hello! You are visitor #2''),
       Served (Response 404 ''Not Found''),
       Served (Response 200 ''Hello! You are visitor #3'')],
      Blocks, \<lparr>visitor_counter = 3, shutdown_signal = False\<rparr>) \<and>
   testNYU_replies
     [Incoming (werkzeug_request ''/testNYU'' \<lparr>year = 2017, month = 3, day = 9\<rparr>),
      Idle,
      Incoming (werkzeug_request ''/'' \<lparr>year = 2017, month = 3, day = 9\<rparr>),
      Incoming (bare_request ''/testNYU'' \<lparr>year = 2017, month = 3, day = 10\<rparr>),
      Incoming (werkzeug_request ''/favicon.ico'' \<lparr>year = 2017, month = 3, day = 10\<rparr>),
      Incoming (werkzeug_request ''/testNYU'' \<lparr>year = 2017, month = 3, day = 10\<rparr>)]
     [Served (Response 200 ''Hello! You are visitor #1''),
       Served (Response 200 ''Hello Panos, it is now 2017-03-09''),
       Served (Response 200 ''Hello! You are visitor #2''),
       Served (Response 404 ''Not Found''),
       Served (Response 200 ''Hello! You are visitor #3'')] =
     [Served (Response 200 ''Hello! You are visitor #1''),
      Served (Response 200 ''Hello! You are visitor #2''),
      Served (Response 200 ''Hello! You are visitor #3'')]"
proof -
  let ?es = "[Incoming (werkzeug_request ''/testNYU'' \<lparr>year = 2017, month = 3, day = 9\<rparr>),
      Idle,
      Incoming (werkzeug_request ''/'' \<lparr>year = 2017, month = 3, day = 9\<rparr>),
      Incoming (bare_request ''/testNYU'' \<lparr>year = 2017, month = 3, day = 10\<rparr>),
      Incoming (werkzeug_request ''/favicon.ico'' \<lparr>year = 2017, month = 3, day = 10\<rparr>),
      Incoming (werkzeug_request ''/testNYU'' \<lparr>year = 2017, month = 3, day = 10\<rparr>)]"
  let ?s = "\<lparr>visitor_counter = 12, shutdown_signal = False\<rparr>"
  have e: "start_server webserver (\<lambda>k. True) ?es ?s =
     ([Served (Response 200 ''Hello! You are visitor #1''),
       Served (Response 200 ''Hello Panos, it is now 2017-03-09''),
       Served (Response 200 ''Hello! You are visitor #2''),
       Served (Response 404 ''Not Found''),
       Served (Response 200 ''Hello! You are visitor #3'')],
      Blocks, \<lparr>visitor_counter = 3, shutdown_signal = False\<rparr>)"
    by (simp add: run_defs)
  have n: "length (filter to_testNYU (requests_of ?es)) = 3"
    by (simp add: to_testNYU_def werkzeug_request_def bare_request_def)
  have u: "[1..3::int] = [1, 2, 3]" by (simp add: upto_rec1)
  have d: "str_int 1 = ''1''" "str_int 2 = ''2''" "str_int 3 = ''3''"
    by (simp_all add: str_int_def str_nat.simps digit_char_def)
  from visitor_numbers_in_a_run [of "\<lambda>k. True" ?es ?s]
  have "testNYU_replies ?es (fst (start_server webserver (\<lambda>k. True) ?es ?s)) =
     map (\<lambda>n. Served (Response 200 (''Hello! You are visitor #'' @ str_int n)))
       [1..int (length (filter to_testNYU (requests_of ?es)))]"
    by simp
  then have "testNYU_replies ?es (fst (start_server webserver (\<lambda>k. True) ?es ?s)) =
      [Served (Response 200 ''Hello! You are visitor #1''),
       Served (Response 200 ''Hello! You are visitor #2''),
       Served (Response 200 ''Hello! You are visitor #3'')]"
    by (simp only: n u d list.map of_nat_numeral append.simps)
  with e show ?thesis by (simp only: fst_conv simp_thms)
qed

subsection \<open>The handler of /\<close>

lemma str_date_shape:
  assumes "valid_date d"
  shows "length (str_date d) = 10 \<and>
         nat_of_str (take 4 (str_date d)) = year d \<and> str_date d ! 4 = CHR ''-'' \<and>
         nat_of_str (take 2 (drop 5 (str_date d))) = month d \<and> str_date d ! 7 = CHR ''-'' \<and>
         nat_of_str (drop 8 (str_date d)) = day d"
proof -
  define Y where "Y = zfill 4 (str_nat (year d))"
  define M where "M = zfill 2 (str_nat (month d))"
  define D where "D = zfill 2 (str_nat (day d))"
  from assms have "year d < 10 ^ 4" "month d < 10 ^ 2" "day d < 10 ^ 2"
    by (simp_all add: valid_date_def)
  then have "length (str_nat (year d)) \<le> 4" "length (str_nat (month d)) \<le> 2" "length (str_nat (day d)) \<le> 2"
    by (simp_all add: str_nat_length)
  then have len: "length Y = 4" "length M = 2" "length D = 2"
    by (simp_all add: Y_def M_def D_def length_zfill)
  have val: "nat_of_str Y = year d" "nat_of_str M = month d" "nat_of_str D = day d"
    by (simp_all add: Y_def M_def D_def nat_of_str_zfill nat_of_str_str_nat)
  have sd: "str_date d = Y @ CHR ''-'' # M @ CHR ''-'' # D"
    by (simp add: str_date_def Y_def M_def D_def)
  from len val show ?thesis
    by (simp add: sd nth_append)
qed

text \<open>
  C4. Every call of the handler of \<open>/\<close> returns \<open>Hello Panos, it is now\<close> followed by the
  text of the current date and changes nothing, the shutdown flag included. For a date
  that \<open>datetime.date\<close> can hold the text is ISO: ten characters, four digits of the
  year, two of the month and two of the day, with \<open>-\<close> between. A server without a
  pending shutdown that serves a request for \<open>/\<close> answers 200 with that body and goes
  on serving whatever comes next.
\<close>

theorem hello_world_greets_and_keeps_serving:
  "hello_world req s = (Inr (''Hello Panos, it is now '' @ str_date (today req)), s) \<and>
   (valid_date (today req) \<longrightarrow>
      length (str_date (today req)) = 10 \<and>
      nat_of_str (take 4 (str_date (today req))) = year (today req) \<and>
      str_date (today req) ! 4 = CHR ''-'' \<and>
      nat_of_str (take 2 (drop 5 (str_date (today req)))) = month (today req) \<and>
      str_date (today req) ! 7 = CHR ''-'' \<and>
      nat_of_str (drop 8 (str_date (today req))) = day (today req)) \<and>
   (path req = ''/'' \<and> \<not> shutdown_signal s \<longrightarrow>
      serve_forever webserver (Incoming req # es) s =
        (case serve_forever webserver es s of
           (replies, c, s') \<Rightarrow>
             (Served (Response 200 (''Hello Panos, it is now '' @ str_date (today req))) # replies, c, s')))"
proof -
  have 1: "hello_world req s = (Inr (''Hello Panos, it is now '' @ str_date (today req)), s)"
    by (simp add: hello_world_def)
  have 3: "serve_forever webserver (Incoming req # es) s =
        (case serve_forever webserver es s of
           (replies, c, s') \<Rightarrow>
             (Served (Response 200 (''Hello Panos, it is now '' @ str_date (today req))) # replies, c, s'))"
    if "path req = ''/''" "\<not> shutdown_signal s"
    using that by (simp add: handle_request_root)
  from 1 3 str_date_shape [of "today req"] show ?thesis by blast
qed

theorem hello_world_greets_and_keeps_serving_witness:
  "valid_date (today (werkzeug_request ''/'' \<lparr>year = 2017, month = 3, day = 9\<rparr>)) \<and>
   path (werkzeug_request ''/'' \<lparr>year = 2017, month = 3, day = 9\<rparr>) = ''/'' \<and>
   \<not> shutdown_signal initial_server \<and>
   hello_world (werkzeug_request ''/'' \<lparr>year = 2017, month = 3, day = 9\<rparr>) initial_server =
     (Inr ''Hello Panos, it is now 2017-03-09'', initial_server) \<and>
   nat_of_str ''2017'' = 2017 \<and> nat_of_str ''03'' = 3 \<and> nat_of_str ''09'' = 9 \<and>
   serve_forever webserver
     [Incoming (werkzeug_request ''/'' \<lparr>year = 2017, month = 3, day = 9\<rparr>)] initial_server =
     ([Served (Response 200 ''Hello Panos, it is now 2017-03-09'')], Blocks, initial_server)"
proof -
  let ?r = "werkzeug_request ''/'' \<lparr>year = 2017, month = 3, day = 9\<rparr>"
  have sd: "str_date (today ?r) = ''2017-03-09''"
    by (simp add: werkzeug_request_def str_date_def zfill_def str_nat.simps digit_char_def)
  have y: "year (today ?r) = 2017" "month (today ?r) = 3" "day (today ?r) = 9"
    by (simp_all add: werkzeug_request_def)
  have v: "valid_date (today ?r)" by (simp add: y valid_date_def)
  have p: "path ?r = ''/''" by (simp add: werkzeug_request_def)
  have n: "\<not> shutdown_signal initial_server" by (simp add: initial_server_def)
  from hello_world_greets_and_keeps_serving [of ?r initial_server "[]"] v p n
  have a: "hello_world ?r initial_server = (Inr (''Hello Panos, it is now '' @ str_date (today ?r)), initial_server)"
    and b: "nat_of_str (take 4 (str_date (today ?r))) = year (today ?r)"
      "nat_of_str (take 2 (drop 5 (str_date (today ?r)))) = month (today ?r)"
      "nat_of_str (drop 8 (str_date (today ?r))) = day (today ?r)"
    and c: "serve_forever webserver [Incoming ?r] initial_server =
        (case serve_forever webserver [] initial_server of
           (replies, c, s') \<Rightarrow>
             (Served (Response 200 (''Hello Panos, it is now '' @ str_date (today ?r))) # replies, c, s'))"
    by blast+
  from b have b': "nat_of_str ''2017'' = 2017" "nat_of_str ''03'' = 3" "nat_of_str ''09'' = 9"
    by (simp_all add: sd y)
  from a have a': "hello_world ?r initial_server = (Inr ''Hello Panos, it is now 2017-03-09'', initial_server)"
    by (simp add: sd)
  from c have c': "serve_forever webserver [Incoming ?r] initial_server =
     ([Served (Response 200 ''Hello Panos, it is now 2017-03-09'')], Blocks, initial_server)"
    by (simp add: sd)
  from v p n a' b' c' show ?thesis by blast
qed

subsection \<open>Blocking and returning\<close>

lemma serve_forever_Blocks:
  "serve_forever routes es s = (replies, Blocks, s') \<Longrightarrow> \<not> shutdown_signal s \<Longrightarrow> \<not> shutdown_signal s'"
proof (induction routes es s arbitrary: replies rule: serve_forever.induct)
  case (1 routes s)
  then show ?case by simp
next
  case (2 routes es s)
  then show ?case by simp
next
  case (3 routes req es s)
  obtain resp s1 where h: "handle_request routes req s = (resp, s1)" by (cases "handle_request routes req s")
  obtain r2 c2 s2 where r: "serve_forever routes es s1 = (r2, c2, s2)" by (cases "serve_forever routes es s1")
  from 3(2) h r have ns: "\<not> shutdown_signal s1" and "c2 = Blocks" and "s2 = s'"
    by (auto split: if_splits)
  with 3(1) [OF h [symmetric] ns, of r2] r ns show ?case by simp
qed

lemma serve_forever_Returns:
  "serve_forever routes es s = (replies, Returns, s') \<Longrightarrow>
   \<exists>es1 req es2 r1 s1 resp. es = es1 @ Incoming req # es2 \<and>
      serve_forever routes es1 s = (r1, Blocks, s1) \<and>
      handle_request routes req s1 = (resp, s') \<and> shutdown_signal s' \<and>
      replies = r1 @ Served resp # refused es2"
proof (induction routes es s arbitrary: replies rule: serve_forever.induct)
  case (1 routes s)
  then show ?case by simp
next
  case (2 routes es s)
  then obtain es1 req es2 r1 s1 resp where
    "es = es1 @ Incoming req # es2" "serve_forever routes es1 s = (r1, Blocks, s1)"
    "handle_request routes req s1 = (resp, s')" "shutdown_signal s'" "replies = r1 @ Served resp # refused es2"
    by fastforce
  then have "Idle # es = (Idle # es1) @ Incoming req # es2 \<and> serve_forever routes (Idle # es1) s = (r1, Blocks, s1) \<and>
     handle_request routes req s1 = (resp, s') \<and> shutdown_signal s' \<and> replies = r1 @ Served resp # refused es2"
    by simp
  then show ?case by blast
next
  case (3 routes req es s)
  obtain resp s1 where h: "handle_request routes req s = (resp, s1)" by (cases "handle_request routes req s")
  show ?case
  proof (cases "shutdown_signal s1")
    case True
    with 3(2) h have "s' = s1" "replies = Served resp # refused es" by auto
    with h True have "Incoming req # es = [] @ Incoming req # es \<and> serve_forever routes [] s = ([], Blocks, s) \<and>
      handle_request routes req s = (resp, s') \<and> shutdown_signal s' \<and> replies = [] @ Served resp # refused es"
      by simp
    then show ?thesis by blast
  next
    case False
    obtain r2 c2 s2 where r: "serve_forever routes es s1 = (r2, c2, s2)" by (cases "serve_forever routes es s1")
    with 3(2) h False have c2: "c2 = Returns" "s2 = s'" "replies = Served resp # r2" by auto
    from 3(1) [OF h [symmetric] False, of r2] r c2 obtain es1 rq es2 r1 t1 rsp where
      *: "es = es1 @ Incoming rq # es2" "serve_forever routes es1 s1 = (r1, Blocks, t1)"
      "handle_request routes rq t1 = (rsp, s')" "shutdown_signal s'" "r2 = r1 @ Served rsp # refused es2"
      by auto
    from * h False c2 have "Incoming req # es = (Incoming req # es1) @ Incoming rq # es2 \<and>
       serve_forever routes (Incoming req # es1) s = (Served resp # r1, Blocks, t1) \<and>
       handle_request routes rq t1 = (rsp, s') \<and> shutdown_signal s' \<and> replies = (Served resp # r1) @ Served rsp # refused es2"
      by simp
    then show ?thesis by blast
  qed
qed

lemma serve_forever_idle: "\<forall>e\<in>set es. e = Idle \<Longrightarrow> serve_forever routes es s = ([], Blocks, s)"
  by (induction es) auto

lemma serve_forever_append:
  "serve_forever routes es1 s = (r1, Blocks, s1) \<Longrightarrow>
   serve_forever routes (es1 @ es2) s =
     (case serve_forever routes es2 s1 of (r2, c, s2) \<Rightarrow> (r1 @ r2, c, s2))"
proof (induction routes es1 s arbitrary: r1 rule: serve_forever.induct)
  case (1 routes s)
  then show ?case by (simp split: prod.splits)
next
  case (2 routes es s)
  then show ?case by simp
next
  case (3 routes req es s)
  obtain resp t where h: "handle_request routes req s = (resp, t)" by (cases "handle_request routes req s")
  obtain r2 c2 t2 where r: "serve_forever routes es t = (r2, c2, t2)" by (cases "serve_forever routes es t")
  from 3(2) h r have ns: "\<not> shutdown_signal t" and e: "c2 = Blocks" "t2 = s1" "r1 = Served resp # r2"
    by (auto split: if_splits)
  from 3(1) [OF h [symmetric] ns, of r2] r e h ns show ?case
    by (simp split: prod.splits)
qed

lemma start_server_Blocks_listening:
  "start_server routes bind_ok es s = (replies, Blocks, s') \<Longrightarrow>
   bind_ok 0 \<and> \<not> shutdown_signal s' \<and>
   serve_forever routes es (s\<lparr>visitor_counter := 0, shutdown_signal := False\<rparr>) = (replies, Blocks, s')"
proof -
  assume a: "start_server routes bind_ok es s = (replies, Blocks, s')"
  then have b: "bind_ok 0"
    by (auto simp: start_server_def webserver_run_def listen_def Let_def split: if_splits)
  with a have sf: "serve_forever routes es (s\<lparr>visitor_counter := 0, shutdown_signal := False\<rparr>) = (replies, Blocks, s')"
    by (simp add: start_server_def webserver_run_def listen_def Let_def)
  from serve_forever_Blocks [OF sf] b sf show ?thesis by simp
qed

text \<open>
  C6. \<open>start_server\<close> returns exactly when the events hold a request whose handler
  raised the shutdown flag while the server, blocked until then, had none pending: it
  returns only after a shutdown triggered from within a handler. If nothing but idle
  polls arrive it does not return, however many they are; having bound the port it is
  still blocked after any number of them.
\<close>

theorem start_server_returns_only_after_shutdown:
  "(fst (snd (start_server routes bind_ok es s)) = Returns \<longleftrightarrow>
      (\<exists>es1 req es2 r1 s1. es = es1 @ Incoming req # es2 \<and>
          start_server routes bind_ok es1 s = (r1, Blocks, s1) \<and> \<not> shutdown_signal s1 \<and>
          shutdown_signal (snd (handle_request routes req s1)))) \<and>
   ((\<forall>e\<in>set es. e = Idle) \<longrightarrow> fst (snd (start_server routes bind_ok es s)) \<noteq> Returns) \<and>
   (bind_ok 0 \<longrightarrow>
      start_server routes bind_ok (replicate n Idle) s =
        ([], Blocks, s\<lparr>visitor_counter := 0, shutdown_signal := False\<rparr>))"
proof -
  let ?s0 = "s\<lparr>visitor_counter := 0, shutdown_signal := False\<rparr>"
  have run: "start_server routes bind_ok xs s = serve_forever routes xs ?s0" if "bind_ok 0" for xs
    using that by (simp add: start_server_def webserver_run_def listen_def Let_def)
  have fail: "start_server routes bind_ok xs s = ([], Raises OSError, s\<lparr>visitor_counter := 0\<rparr>)"
    if "\<not> bind_ok 0" for xs
    using that by (simp add: start_server_def webserver_run_def listen_def Let_def)
  have only: "\<exists>es1 req es2 r1 s1. es = es1 @ Incoming req # es2 \<and>
          start_server routes bind_ok es1 s = (r1, Blocks, s1) \<and> \<not> shutdown_signal s1 \<and>
          shutdown_signal (snd (handle_request routes req s1))"
    if ret: "fst (snd (start_server routes bind_ok es s)) = Returns"
  proof -
    from ret fail have b: "bind_ok 0" by (cases "bind_ok 0") auto
    obtain replies s' where "serve_forever routes es ?s0 = (replies, Returns, s')"
      using ret run [OF b, of es] by (cases "serve_forever routes es ?s0") auto
    from serve_forever_Returns [OF this] obtain es1 req es2 r1 s1 resp where
      *: "es = es1 @ Incoming req # es2" "serve_forever routes es1 ?s0 = (r1, Blocks, s1)"
         "handle_request routes req s1 = (resp, s')" "shutdown_signal s'"
      by blast
    from serve_forever_Blocks [OF *(2)] have "\<not> shutdown_signal s1" by simp
    with * run [OF b, of es1] show ?thesis by force
  qed
  have after: "fst (snd (start_server routes bind_ok es s)) = Returns"
    if "es = es1 @ Incoming req # es2" "start_server routes bind_ok es1 s = (r1, Blocks, s1)"
       "shutdown_signal (snd (handle_request routes req s1))" for es1 req es2 r1 s1
  proof -
    from start_server_Blocks_listening [OF that(2)]
    have b: "bind_ok 0" and sf: "serve_forever routes es1 ?s0 = (r1, Blocks, s1)" by simp_all
    from that(3) have "serve_forever routes (Incoming req # es2) s1 =
        (Served (fst (handle_request routes req s1)) # refused es2, Returns, snd (handle_request routes req s1))"
      by (cases "handle_request routes req s1") simp
    with serve_forever_append [OF sf, of "Incoming req # es2"] that(1) run [OF b, of es]
    show ?thesis by simp
  qed
  have idle: "fst (snd (start_server routes bind_ok es s)) \<noteq> Returns" if "\<forall>e\<in>set es. e = Idle"
    using that run [of es] fail [of es] serve_forever_idle [OF that, of routes ?s0]
    by (cases "bind_ok 0") simp_all
  have never: "start_server routes bind_ok (replicate n Idle) s = ([], Blocks, ?s0)" if "bind_ok 0"
    using run [OF that, of "replicate n Idle"] serve_forever_idle [of "replicate n Idle" routes ?s0]
    by simp
  from only after idle never show ?thesis by blast
qed


theorem start_server_returns_only_after_shutdown_witness:
  "start_server webserver_stopping (\<lambda>k. True) [Idle] \<lparr>visitor_counter = 5, shutdown_signal = False\<rparr>
     = ([], Blocks, initial_server) \<and>
   \<not> shutdown_signal initial_server \<and>
   shutdown_signal (snd (handle_request webserver_stopping
      (werkzeug_request ''/testNYU'' \<lparr>year = 2017, month = 3, day = 9\<rparr>) initial_server)) \<and>
   fst (snd (start_server webserver_stopping (\<lambda>k. True)
      [Idle, Incoming (werkzeug_request ''/testNYU'' \<lparr>year = 2017, month = 3, day = 9\<rparr>),
       Incoming (werkzeug_request ''/'' \<lparr>year = 2017, month = 3, day = 9\<rparr>)]
      \<lparr>visitor_counter = 5, shutdown_signal = False\<rparr>)) = Returns \<and>
   fst (snd (start_server webserver (\<lambda>k. True) [Idle, Idle]
      \<lparr>visitor_counter = 5, shutdown_signal = False\<rparr>)) \<noteq> Returns \<and>
   start_server webserver (\<lambda>k. True) (replicate 3 Idle) \<lparr>visitor_counter = 5, shutdown_signal = False\<rparr>
     = ([], Blocks, initial_server)"
proof -
  let ?nyu = "werkzeug_request ''/testNYU'' \<lparr>year = 2017, month = 3, day = 9\<rparr>"
  let ?root = "werkzeug_request ''/'' \<lparr>year = 2017, month = 3, day = 9\<rparr>"
  let ?s = "\<lparr>visitor_counter = 5, shutdown_signal = False\<rparr>"
  let ?b = "\<lambda>k::nat. True"
  have a: "start_server webserver_stopping ?b [Idle] ?s = ([], Blocks, initial_server)"
    by (simp add: start_server_def webserver_run_def listen_def initial_server_def)
  have n: "\<not> shutdown_signal initial_server" by (simp add: initial_server_def)
  have h: "shutdown_signal (snd (handle_request webserver_stopping ?nyu initial_server))"
    by (simp add: run_defs)
  have "[Idle, Incoming ?nyu, Incoming ?root] = [Idle] @ Incoming ?nyu # [Incoming ?root]" by simp
  with a n h have ex: "\<exists>es1 req es2 r1 s1.
      [Idle, Incoming ?nyu, Incoming ?root] = es1 @ Incoming req # es2 \<and>
      start_server webserver_stopping ?b es1 ?s = (r1, Blocks, s1) \<and> \<not> shutdown_signal s1 \<and>
      shutdown_signal (snd (handle_request webserver_stopping req s1))"
    by blast
  from start_server_returns_only_after_shutdown
         [of webserver_stopping ?b "[Idle, Incoming ?nyu, Incoming ?root]" ?s 0] ex
  have r: "fst (snd (start_server webserver_stopping ?b [Idle, Incoming ?nyu, Incoming ?root] ?s)) = Returns"
    by blast
  have idle: "\<forall>e\<in>set [Idle, Idle]. e = Idle" by simp
  note th = start_server_returns_only_after_shutdown [of webserver ?b "[Idle, Idle]" ?s 3]
  from th idle have i: "fst (snd (start_server webserver ?b [Idle, Idle] ?s)) \<noteq> Returns"
    by blast
  from th have "start_server webserver ?b (replicate 3 Idle) ?s =
      ([], Blocks, ?s\<lparr>visitor_counter := 0, shutdown_signal := False\<rparr>)"
    by blast
  then have f: "start_server webserver ?b (replicate 3 Idle) ?s = ([], Blocks, initial_server)"
    by (simp add: initial_server_def)
  from a n h r i f show ?thesis by blast
qed

text \<open>
  C5. What \<open>start_server\<close> does is the same whatever value the counter had before the
  call; when serving begins (no event handled yet) the counter is 0; and the first
  request to \<open>/testNYU\<close> of any run is visitor 1.
\<close>

theorem start_server_resets_counter:
  "start_server routes bind_ok events (s\<lparr>visitor_counter := c\<rparr>) = start_server routes bind_ok events s \<and>
   visitor_counter (snd (snd (start_server routes bind_ok [] s))) = 0 \<and>
   (bind_ok 0 \<and> path req = ''/testNYU'' \<longrightarrow>
      (\<exists>replies. fst (start_server webserver bind_ok (Incoming req # events) s) =
         Served (Response 200 ''Hello! You are visitor #1'') # replies))"
proof -
  have 1: "start_server routes bind_ok events (s\<lparr>visitor_counter := c\<rparr>) = start_server routes bind_ok events s"
    by (simp add: start_server_def webserver_run_def listen_def Let_def)
  have 2: "visitor_counter (snd (snd (start_server routes bind_ok [] s))) = 0"
    by (simp add: start_server_def webserver_run_def listen_def Let_def)
  have 3: "\<exists>replies. fst (start_server webserver bind_ok (Incoming req # events) s) =
         Served (Response 200 ''Hello! You are visitor #1'') # replies"
    if "bind_ok 0" "path req = ''/testNYU''"
    using that
    by (simp add: start_server_def webserver_run_def listen_def Let_def handle_request_nyu
        str_int_def str_nat.simps digit_char_def split: prod.splits)
  from 1 2 3 show ?thesis by blast
qed

theorem start_server_resets_counter_witness:
  "path (werkzeug_request ''/testNYU'' \<lparr>year = 2017, month = 3, day = 9\<rparr>) = ''/testNYU'' \<and>
   start_server webserver (\<lambda>k. True)
      [Incoming (werkzeug_request ''/testNYU'' \<lparr>year = 2017, month = 3, day = 9\<rparr>)]
      (\<lparr>visitor_counter = 0, shutdown_signal = False\<rparr>\<lparr>visitor_counter := 99\<rparr>) =
     ([Served (Response 200 ''Hello! You are visitor #1'')], Blocks,
      \<lparr>visitor_counter = 1, shutdown_signal = False\<rparr>) \<and>
   visitor_counter (snd (snd (start_server webserver (\<lambda>k. True) []
      \<lparr>visitor_counter = 99, shutdown_signal = False\<rparr>))) = 0 \<and>
   hd (fst (start_server webserver (\<lambda>k. True)
      [Incoming (werkzeug_request ''/testNYU'' \<lparr>year = 2017, month = 3, day = 9\<rparr>), Idle]
      \<lparr>visitor_counter = 99, shutdown_signal = False\<rparr>)) =
     Served (Response 200 ''Hello! You are visitor #1'')"
proof -
  let ?nyu = "werkzeug_request ''/testNYU'' \<lparr>year = 2017, month = 3, day = 9\<rparr>"
  let ?s0 = "\<lparr>visitor_counter = 0, shutdown_signal = False\<rparr>"
  let ?s99 = "\<lparr>visitor_counter = 99, shutdown_signal = False\<rparr>"
  have p: "path ?nyu = ''/testNYU''" by (simp add: werkzeug_request_def)
  have e: "start_server webserver (\<lambda>k. True) [Incoming ?nyu] ?s0 =
     ([Served (Response 200 ''Hello! You are visitor #1'')], Blocks,
      \<lparr>visitor_counter = 1, shutdown_signal = False\<rparr>)"
    by (simp add: run_defs)
  from start_server_resets_counter [where routes = webserver and bind_ok = "\<lambda>k. True"
      and events = "[Incoming ?nyu]" and s = ?s0 and c = 99 and req = ?nyu]
  have "start_server webserver (\<lambda>k. True) [Incoming ?nyu] (?s0\<lparr>visitor_counter := 99\<rparr>) =
     start_server webserver (\<lambda>k. True) [Incoming ?nyu] ?s0"
    by blast
  with e have 1: "start_server webserver (\<lambda>k. True) [Incoming ?nyu] (?s0\<lparr>visitor_counter := 99\<rparr>) =
     ([Served (Response 200 ''Hello! You are visitor #1'')], Blocks,
      \<lparr>visitor_counter = 1, shutdown_signal = False\<rparr>)"
    by simp
  note th = start_server_resets_counter [where routes = webserver and bind_ok = "\<lambda>k. True"
      and s = ?s99 and c = 0 and req = ?nyu and events = "[Idle]"]
  from th have 2: "visitor_counter (snd (snd (start_server webserver (\<lambda>k. True) [] ?s99))) = 0"
    by blast
  from th p obtain replies where
    "fst (start_server webserver (\<lambda>k. True) [Incoming ?nyu, Idle] ?s99) =
       Served (Response 200 ''Hello! You are visitor #1'') # replies"
    by blast
  then have 3: "hd (fst (start_server webserver (\<lambda>k. True) [Incoming ?nyu, Idle] ?s99)) =
       Served (Response 200 ''Hello! You are visitor #1'')"
    by simp
  from p 1 2 3 show ?thesis by blast
qed

text \<open>
  C1. The handler of \<open>/testNYU\<close> never raises the shutdown flag: its call of
  \<open>stop_server()\<close> is commented out. In a run that receives \<open>/testNYU\<close> twice and then
  \<open>/\<close>, all three requests are served and the server is still blocked in its loop; no
  later request fails to connect. The notebook's own text says the server is configured
  to stop after one call.
\<close>

theorem testNYU_does_not_stop_the_server:
  "shutdown_signal (snd (hello_nyu req s)) = shutdown_signal s \<and>
   start_server webserver (\<lambda>k. True)
     [Incoming (werkzeug_request ''/testNYU'' \<lparr>year = 2017, month = 3, day = 9\<rparr>),
      Incoming (werkzeug_request ''/testNYU'' \<lparr>year = 2017, month = 3, day = 9\<rparr>),
      Incoming (werkzeug_request ''/'' \<lparr>year = 2017, month = 3, day = 9\<rparr>)]
     initial_server =
     ([Served (Response 200 ''Hello! You are visitor #1''),
       Served (Response 200 ''Hello! You are visitor #2''),
       Served (Response 200 ''Hello Panos, it is now 2017-03-09'')],
      Blocks, \<lparr>visitor_counter = 2, shutdown_signal = False\<rparr>)"
  by (simp add: run_defs)

text \<open>With the call enabled, as the notebook's text describes, the same requests end the
  run after the first response.\<close>

lemma documented_configuration_stops:
  "start_server webserver_stopping (\<lambda>k. True)
     [Incoming (werkzeug_request ''/testNYU'' \<lparr>year = 2017, month = 3, day = 9\<rparr>),
      Incoming (werkzeug_request ''/testNYU'' \<lparr>year = 2017, month = 3, day = 9\<rparr>),
      Incoming (werkzeug_request ''/'' \<lparr>year = 2017, month = 3, day = 9\<rparr>)]
     initial_server =
     ([Served (Response 200 ''Hello! You are visitor #1''), Refused, Refused],
      Returns, \<lparr>visitor_counter = 1, shutdown_signal = True\<rparr>)"
  by (simp add: run_defs)

subsection \<open>The life cycle of the server\<close>

lemma step_cases_full:
  assumes "step routes (l, s) (l', s')"
  shows "(l = Stopped \<and> l' = Running \<and> (\<exists>bind_ok. bind_ok 0 \<and> listen bind_ok (s\<lparr>visitor_counter := 0\<rparr>) = Inr s')) \<or>
     (l = Stopped \<and> l' = Stopped \<and> s' = s\<lparr>visitor_counter := 0\<rparr> \<and>
        (\<exists>bind_ok. \<not> bind_ok 0 \<and> listen bind_ok (s\<lparr>visitor_counter := 0\<rparr>) = Inl OSError)) \<or>
     (l = Running \<and> l' = Running \<and> s' = s) \<or>
     (l = Running \<and> l' = Running \<and> \<not> shutdown_signal s' \<and> (\<exists>req resp. handle_request routes req s = (resp, s'))) \<or>
     (l = Running \<and> l' = Stopped \<and> shutdown_signal s' \<and> (\<exists>req resp. handle_request routes req s = (resp, s')))"
    (is "?A \<or> ?B \<or> ?C \<or> ?D \<or> ?E")
  using assms
proof (cases rule: step.cases)
  case (start_ok bind_ok)
  from start_ok(3) have "bind_ok 0" by (cases "bind_ok 0") (simp_all add: listen_def)
  with start_ok(3) have "\<exists>b. b 0 \<and> listen b (s\<lparr>visitor_counter := 0\<rparr>) = Inr s'"
    by (intro exI [of _ bind_ok] conjI)
  with start_ok(1,2) have ?A by simp
  then show ?thesis by (rule disjI1)
next
  case (start_fails bind_ok e)
  from start_fails(4) have "\<not> bind_ok 0" by (cases "bind_ok 0") (simp_all add: listen_def)
  then have "\<not> bind_ok 0 \<and> listen bind_ok (s\<lparr>visitor_counter := 0\<rparr>) = Inl OSError"
    by (simp add: listen_def)
  then have "\<exists>b. \<not> b 0 \<and> listen b (s\<lparr>visitor_counter := 0\<rparr>) = Inl OSError"
    by (rule exI [of _ bind_ok])
  with start_fails(1,2,3) have ?B by simp
  then show ?thesis by simp
next
  case idle
  then have ?C by simp
  then show ?thesis by simp
next
  case (served req resp)
  from served(3) have "\<exists>req resp. handle_request routes req s = (resp, s')" by blast
  with served have ?D by simp
  then show ?thesis by simp
next
  case (shutdown req resp)
  from shutdown(3) have "\<exists>req resp. handle_request routes req s = (resp, s')" by blast
  with shutdown have ?E by simp
  then show ?thesis by simp
qed

lemma running_no_shutdown_pending:
  "(step routes)\<^sup>*\<^sup>* (Stopped, initial_server) (l, s) \<Longrightarrow> l = Running \<Longrightarrow> \<not> shutdown_signal s"
proof (induction "(l, s)" arbitrary: l s rule: rtranclp_induct)
  case base
  then show ?case by simp
next
  case (step y)
  obtain l0 s0 where y: "y = (l0, s0)" by (cases y)
  from step(2) y have "step routes (l0, s0) (l, s)" by simp
  from step_cases_full [OF this] step(3) [OF y] step(4) show ?case
    by (auto simp: listen_def split: if_splits)
qed

lemma serve_forever_steps:
  "serve_forever routes es s = (replies, c, s') \<Longrightarrow> (step routes)\<^sup>*\<^sup>* (Running, s) (state_after c, s')"
proof (induction routes es s arbitrary: replies rule: serve_forever.induct)
  case (1 routes s)
  then show ?case by auto
next
  case (2 routes es s)
  then show ?case by simp
next
  case (3 routes req es s)
  obtain resp t where h: "handle_request routes req s = (resp, t)" by (cases "handle_request routes req s")
  show ?case
  proof (cases "shutdown_signal t")
    case True
    with 3(2) h have "c = Returns" "s' = t" by auto
    with step.shutdown [OF h True] show ?thesis by auto
  next
    case False
    obtain r2 c2 t2 where r: "serve_forever routes es t = (r2, c2, t2)" by (cases "serve_forever routes es t")
    with 3(2) h False have "c2 = c" "t2 = s'" by auto
    with 3(1) [OF h [symmetric] False, of r2] r have "(step routes)\<^sup>*\<^sup>* (Running, t) (state_after c, s')" by simp
    with step.served [OF h False] show ?thesis by (rule converse_rtranclp_into_rtranclp)
  qed
qed

lemma start_server_steps:
  "start_server routes bind_ok es s = (replies, c, s') \<Longrightarrow>
   (step routes)\<^sup>*\<^sup>* (Stopped, s) (state_after c, s')"
proof (cases "bind_ok 0")
  case True
  assume a: "start_server routes bind_ok es s = (replies, c, s')"
  let ?s0 = "s\<lparr>visitor_counter := 0, shutdown_signal := False\<rparr>"
  from True have "listen bind_ok (s\<lparr>visitor_counter := 0\<rparr>) = Inr ?s0" by (simp add: listen_def)
  then have 1: "step routes (Stopped, s) (Running, ?s0)" by (rule step.start_ok)
  from a True have "serve_forever routes es ?s0 = (replies, c, s')"
    by (simp add: start_server_def webserver_run_def listen_def Let_def)
  from 1 serve_forever_steps [OF this] show ?thesis by (rule converse_rtranclp_into_rtranclp)
next
  case False
  assume a: "start_server routes bind_ok es s = (replies, c, s')"
  from False have "listen bind_ok (s\<lparr>visitor_counter := 0\<rparr>) = Inl OSError" by (simp add: listen_def)
  then have "step routes (Stopped, s) (Stopped, s\<lparr>visitor_counter := 0\<rparr>)" by (rule step.start_fails)
  moreover from a False have "c = Raises OSError" "s' = s\<lparr>visitor_counter := 0\<rparr>"
    by (simp_all add: start_server_def webserver_run_def listen_def Let_def)
  ultimately show ?thesis by auto
qed

lemma handle_request_by_view:
  "handle_request routes req s = (resp, s') \<Longrightarrow> s' \<noteq> s \<Longrightarrow>
   \<exists>v. routes (path req) = Some v \<and> s' = snd (v req s)"
  by (auto simp: handle_request_def split: option.splits prod.splits sum.splits)

text \<open>
  C7. The life cycle has the two states \<open>Stopped\<close> and \<open>Running\<close>, both reachable from
  the initial \<open>Stopped\<close>. From a reachable configuration a step is one of: a start whose
  listen call succeeds (\<open>Stopped\<close> to \<open>Running\<close>); a start whose listen call fails
  (stays \<open>Stopped\<close>); a poll during which no shutdown is triggered (stays \<open>Running\<close>);
  a request for a registered route whose handler raises the shutdown flag, which was
  not raised before (\<open>Running\<close> to \<open>Stopped\<close>). Every call of \<open>start_server\<close> follows
  these steps, ending \<open>Running\<close> if it is still blocked and \<open>Stopped\<close> otherwise.
\<close>

theorem server_life_cycle:
  "{l. \<exists>s. (step routes)\<^sup>*\<^sup>* (Stopped, initial_server) (l, s)} = {Stopped, Running} \<and>
   ((step routes)\<^sup>*\<^sup>* (Stopped, initial_server) (l, s) \<and> step routes (l, s) (l', s') \<longrightarrow>
      (l = Stopped \<and> l' = Running \<and>
         (\<exists>bind_ok. bind_ok 0 \<and> listen bind_ok (s\<lparr>visitor_counter := 0\<rparr>) = Inr s')) \<or>
      (l = Stopped \<and> l' = Stopped \<and>
         (\<exists>bind_ok. \<not> bind_ok 0 \<and> listen bind_ok (s\<lparr>visitor_counter := 0\<rparr>) = Inl OSError)) \<or>
      (l = Running \<and> l' = Running \<and> \<not> shutdown_signal s \<and> \<not> shutdown_signal s') \<or>
      (l = Running \<and> l' = Stopped \<and> \<not> shutdown_signal s \<and> shutdown_signal s' \<and>
         (\<exists>req v. routes (path req) = Some v \<and> s' = snd (v req s)))) \<and>
   (start_server routes bind_ok es s0 = (replies, c, s1) \<longrightarrow>
      (step routes)\<^sup>*\<^sup>* (Stopped, s0) (state_after c, s1))"
proof -
  have "listen (\<lambda>k. True) (initial_server\<lparr>visitor_counter := 0\<rparr>) = Inr initial_server"
    by (simp add: listen_def initial_server_def)
  then have "step routes (Stopped, initial_server) (Running, initial_server)" by (rule step.start_ok)
  then have run: "(step routes)\<^sup>*\<^sup>* (Stopped, initial_server) (Running, initial_server)" by auto
  have stop: "(step routes)\<^sup>*\<^sup>* (Stopped, initial_server) (Stopped, initial_server)" by simp
  have 1: "{l. \<exists>s. (step routes)\<^sup>*\<^sup>* (Stopped, initial_server) (l, s)} = {Stopped, Running}"
  proof
    show "{l. \<exists>s. (step routes)\<^sup>*\<^sup>* (Stopped, initial_server) (l, s)} \<subseteq> {Stopped, Running}"
    proof
      fix l assume "l \<in> {l. \<exists>s. (step routes)\<^sup>*\<^sup>* (Stopped, initial_server) (l, s)}"
      show "l \<in> {Stopped, Running}" by (cases l) simp_all
    qed
    from run stop show "{Stopped, Running} \<subseteq> {l. \<exists>s. (step routes)\<^sup>*\<^sup>* (Stopped, initial_server) (l, s)}"
      by blast
  qed
  have 2: "(l = Stopped \<and> l' = Running \<and>
         (\<exists>bind_ok. bind_ok 0 \<and> listen bind_ok (s\<lparr>visitor_counter := 0\<rparr>) = Inr s')) \<or>
      (l = Stopped \<and> l' = Stopped \<and>
         (\<exists>bind_ok. \<not> bind_ok 0 \<and> listen bind_ok (s\<lparr>visitor_counter := 0\<rparr>) = Inl OSError)) \<or>
      (l = Running \<and> l' = Running \<and> \<not> shutdown_signal s \<and> \<not> shutdown_signal s') \<or>
      (l = Running \<and> l' = Stopped \<and> \<not> shutdown_signal s \<and> shutdown_signal s' \<and>
         (\<exists>req v. routes (path req) = Some v \<and> s' = snd (v req s)))"
      (is "?A \<or> ?B \<or> ?C \<or> ?D")
    if r: "(step routes)\<^sup>*\<^sup>* (Stopped, initial_server) (l, s)" and st: "step routes (l, s) (l', s')"
  proof -
    from running_no_shutdown_pending [OF r] have n: "l = Running \<Longrightarrow> \<not> shutdown_signal s" .
    from step_cases_full [OF st] consider
        (a) "l = Stopped \<and> l' = Running \<and> (\<exists>bind_ok. bind_ok 0 \<and> listen bind_ok (s\<lparr>visitor_counter := 0\<rparr>) = Inr s')"
      | (b) "l = Stopped \<and> l' = Stopped \<and> s' = s\<lparr>visitor_counter := 0\<rparr> \<and>
              (\<exists>bind_ok. \<not> bind_ok 0 \<and> listen bind_ok (s\<lparr>visitor_counter := 0\<rparr>) = Inl OSError)"
      | (c) "l = Running \<and> l' = Running \<and> s' = s"
      | (d) "l = Running \<and> l' = Running \<and> \<not> shutdown_signal s' \<and> (\<exists>req resp. handle_request routes req s = (resp, s'))"
      | (e) "l = Running \<and> l' = Stopped \<and> shutdown_signal s' \<and> (\<exists>req resp. handle_request routes req s = (resp, s'))"
      by blast
    then show ?thesis
    proof cases
      case a
      then have ?A by simp
      then show ?thesis by simp
    next
      case b
      then have ?B by simp
      then show ?thesis by simp
    next
      case c
      with n have ?C by simp
      then show ?thesis by simp
    next
      case d
      with n have ?C by simp
      then show ?thesis by simp
    next
      case e
      with n have ns: "\<not> shutdown_signal s" by simp
      from e obtain req resp where h: "handle_request routes req s = (resp, s')" by blast
      from e ns have "s' \<noteq> s" by auto
      from handle_request_by_view [OF h this] have "\<exists>req v. routes (path req) = Some v \<and> s' = snd (v req s)"
        by blast
      with e ns have ?D by simp
      then show ?thesis by simp
    qed
  qed
  have 3: "(step routes)\<^sup>*\<^sup>* (Stopped, s0) (state_after c, s1)"
    if "start_server routes bind_ok es s0 = (replies, c, s1)"
    using that by (rule start_server_steps)
  from 1 show ?thesis
  proof (intro conjI impI)
    assume "(step routes)\<^sup>*\<^sup>* (Stopped, initial_server) (l, s) \<and> step routes (l, s) (l', s')"
    then show "?A \<or> ?B \<or> ?C \<or> ?D" using 2 by simp
  next
    assume "start_server routes bind_ok es s0 = (replies, c, s1)"
    then show "(step routes)\<^sup>*\<^sup>* (Stopped, s0) (state_after c, s1)" by (rule 3)
  qed
qed

theorem server_life_cycle_witness:
  "(step webserver_stopping)\<^sup>*\<^sup>* (Stopped, initial_server) (Running, initial_server) \<and>
   step webserver_stopping (Running, initial_server)
     (Stopped, \<lparr>visitor_counter = 1, shutdown_signal = True\<rparr>) \<and>
   \<not> shutdown_signal initial_server \<and>
   (\<exists>req v. webserver_stopping (path req) = Some v \<and>
      \<lparr>visitor_counter = 1, shutdown_signal = True\<rparr> = snd (v req initial_server)) \<and>
   start_server webserver_stopping (\<lambda>k. True)
     [Incoming (werkzeug_request ''/testNYU'' \<lparr>year = 2017, month = 3, day = 9\<rparr>)]
     \<lparr>visitor_counter = 5, shutdown_signal = False\<rparr> =
     ([Served (Response 200 ''Hello! You are visitor #1'')], Returns,
      \<lparr>visitor_counter = 1, shutdown_signal = True\<rparr>) \<and>
   (step webserver_stopping)\<^sup>*\<^sup>* (Stopped, \<lparr>visitor_counter = 5, shutdown_signal = False\<rparr>)
     (Stopped, \<lparr>visitor_counter = 1, shutdown_signal = True\<rparr>)"
proof -
  let ?nyu = "werkzeug_request ''/testNYU'' \<lparr>year = 2017, month = 3, day = 9\<rparr>"
  let ?t = "\<lparr>visitor_counter = 1, shutdown_signal = True\<rparr>"
  let ?s5 = "\<lparr>visitor_counter = 5, shutdown_signal = False\<rparr>"
  have "listen (\<lambda>k. True) (initial_server\<lparr>visitor_counter := 0\<rparr>) = Inr initial_server"
    by (simp add: listen_def initial_server_def)
  then have "step webserver_stopping (Stopped, initial_server) (Running, initial_server)"
    by (rule step.start_ok)
  then have r: "(step webserver_stopping)\<^sup>*\<^sup>* (Stopped, initial_server) (Running, initial_server)"
    by auto
  have h: "handle_request webserver_stopping ?nyu initial_server =
      (Response 200 ''Hello! You are visitor #1'', ?t)"
    by (simp add: run_defs)
  have "shutdown_signal ?t" by simp
  with h have st: "step webserver_stopping (Running, initial_server) (Stopped, ?t)"
    by (rule step.shutdown)
  have e: "start_server webserver_stopping (\<lambda>k. True) [Incoming ?nyu] ?s5 =
      ([Served (Response 200 ''Hello! You are visitor #1'')], Returns, ?t)"
    by (simp add: run_defs)
  note th = server_life_cycle [where routes = webserver_stopping and l = Running and s = initial_server
      and l' = Stopped and s' = ?t and bind_ok = "\<lambda>k. True" and es = "[Incoming ?nyu]" and ?s0.0 = ?s5
      and replies = "[Served (Response 200 ''Hello! You are visitor #1'')]" and c = Returns and ?s1.0 = ?t]
  from th r st have a: "\<not> shutdown_signal initial_server \<and>
      (\<exists>req v. webserver_stopping (path req) = Some v \<and> ?t = snd (v req initial_server))"
    by simp
  from th e have b: "(step webserver_stopping)\<^sup>*\<^sup>* (Stopped, ?s5) (Stopped, ?t)"
    by simp
  from r st a e b show ?thesis by blast
qed

end
